theory Spec2Isabelle
  imports
    Main
    "HOL-Library.Word"
    "HOL-Library.Multiset"
    "HOL-Library.Product_Lexorder"
begin

section \<open>The vector-based index maps of osmium/index/detail/vector_map.hpp\<close>

text \<open>
  The header defines two class templates over a vector type: \<^verbatim>\<open>VectorBasedDenseMap\<close>
  (the value of identifier \<open>id\<close> lives at offset \<open>id\<close>) and \<^verbatim>\<open>VectorBasedSparseMap\<close>
  (a vector of \<open>(id, value)\<close> pairs, sorted on request and searched by
  \<^verbatim>\<open>std::lower_bound\<close>). Each class has the single data member \<^verbatim>\<open>m_vector\<close>, so
  the state of a map is that vector, modelled as a list.

  \<^item> \<^verbatim>\<open>TId\<close> is a template parameter, an unsigned integer type. It is modelled as
    \<open>'w word\<close>, \<open>'w\<close> its width in bits. The one place where the width matters is
    \<^verbatim>\<open>id+1\<close> in \<^verbatim>\<open>set\<close> (see \<open>id_plus_one\<close> below).
  \<^item> \<^verbatim>\<open>TValue\<close> is a type parameter \<open>'v\<close>. The constant
    \<^verbatim>\<open>osmium::index::empty_value<TValue>()\<close> is declared in osmium/index/index.hpp, not
    in this header; it is the parameter \<open>ev\<close> of the functions that use it. The value
    a growing vector fills its new slots with is the parameter \<open>dv\<close>.
  \<^item> A vector held in memory has fewer than \<open>2 ^ 64\<close> bytes, so the \<^verbatim>\<open>size_t\<close>
    arithmetic on sizes (\<^verbatim>\<open>size() * sizeof(element_type)\<close>) does not wrap; sizes are
    natural numbers. Running out of memory while growing is outside the model: the
    list can grow to any length.
\<close>

subsection \<open>Errors\<close>

text \<open>
  \<^verbatim>\<open>NotFound\<close> is \<^verbatim>\<open>osmium::not_found\<close>, thrown by \<^verbatim>\<open>not_found_error(id)\<close>;
  \<^verbatim>\<open>OutOfRange\<close> is \<^verbatim>\<open>std::out_of_range\<close>, thrown by the vector's checked access
  \<^verbatim>\<open>at\<close>; \<^verbatim>\<open>OutOfBounds\<close> stands for the undefined behaviour of an unchecked access
  \<^verbatim>\<open>m_vector[i]\<close> outside the vector; \<^verbatim>\<open>WriteFailed\<close> is the \<^verbatim>\<open>std::system_error\<close>
  of a failed write.
\<close>

datatype 'id error = NotFound 'id | OutOfRange | OutOfBounds | WriteFailed

text \<open>
  Modelled from the spec: \<^verbatim>\<open>not_found_error\<close> is declared in osmium/index/index.hpp,
  not in this header. It never returns: it raises \<^verbatim>\<open>NotFound(id)\<close>.
\<close>

definition not_found_error :: "'id \<Rightarrow> 'id error + 'a" where
  "not_found_error ident = Inl (NotFound ident)"

subsection \<open>The vector collaborator\<close>

text \<open>
  Modelled from the spec: the vector type \<^verbatim>\<open>TVector\<close> is a template parameter, a
  growable buffer with the interface of \<^verbatim>\<open>std::vector\<close>. \<^verbatim>\<open>resize(n)\<close> cuts the
  vector to its first \<open>n\<close> elements or appends slots holding the value type's default
  representation \<open>dv\<close> until it has \<open>n\<close> elements.
\<close>

definition resize :: "'v \<Rightarrow> 'v list \<Rightarrow> nat \<Rightarrow> 'v list" where
  "resize dv xs n =
     (if n \<le> length xs then take n xs else xs @ replicate (n - length xs) dv)"

text \<open>The checked access \<^verbatim>\<open>at(i)\<close>: raises \<^verbatim>\<open>std::out_of_range\<close> when \<open>i \<ge> size()\<close>.\<close>

definition vector_at :: "'v list \<Rightarrow> nat \<Rightarrow> 'id error + 'v" where
  "vector_at xs i = (if i < length xs then Inr (xs ! i) else Inl OutOfRange)"

text \<open>
  The unchecked store \<^verbatim>\<open>m_vector[i] = v\<close>: undefined behaviour outside the vector,
  which the model reports as \<^verbatim>\<open>OutOfBounds\<close>.
\<close>

definition vector_store :: "'v list \<Rightarrow> nat \<Rightarrow> 'v \<Rightarrow> 'id error + 'v list" where
  "vector_store xs i v = (if i < length xs then Inr (xs[i := v]) else Inl OutOfBounds)"

subsection \<open>VectorBasedDenseMap\<close>

type_synonym 'v VectorBasedDenseMap = "'v list"

definition size_dense :: "'v VectorBasedDenseMap \<Rightarrow> nat" where
  "size_dense m = length m"

text \<open>
  The argument \<^verbatim>\<open>id+1\<close> of \<^verbatim>\<open>resize\<close>, as the \<^verbatim>\<open>size_t\<close> it is converted to. The
  sum is computed before the conversion, in the type C++ gives it: an unsigned type
  narrower than \<^verbatim>\<open>int\<close> (\<^verbatim>\<open>uint8_t\<close>, \<^verbatim>\<open>uint16_t\<close>) is promoted to \<^verbatim>\<open>int\<close>, where
  the sum does not overflow; a type at least as wide as \<^verbatim>\<open>unsigned int\<close> (\<^verbatim>\<open>uint32_t\<close>,
  \<^verbatim>\<open>uint64_t\<close>, the latter being the identifier type the library instantiates the maps
  with) keeps its width, and the sum wraps around to 0 at the largest identifier.
  \<^verbatim>\<open>int\<close> has 32 bits.
\<close>

definition id_plus_one :: "'w::len word \<Rightarrow> nat" where
  "id_plus_one ident = (if LENGTH('w) < 32 then unat ident + 1 else unat (ident + 1))"

text \<open>
  \<^verbatim>\<open>set\<close>: \<^verbatim>\<open>if (size() <= id) { m_vector.resize(id+1); } m_vector[id] = value;\<close>
\<close>

definition set_dense ::
  "'v \<Rightarrow> 'v VectorBasedDenseMap \<Rightarrow> 'w::len word \<Rightarrow> 'v \<Rightarrow>
     'w word error + 'v VectorBasedDenseMap" where
  "set_dense dv m ident v =
     (let m1 = (if size_dense m \<le> unat ident then resize dv m (id_plus_one ident) else m)
      in vector_store m1 (unat ident) v)"

text \<open>
  \<^verbatim>\<open>get\<close>: the body of the \<^verbatim>\<open>try\<close> block reads the slot with \<^verbatim>\<open>at\<close> and raises
  \<^verbatim>\<open>NotFound\<close> on the empty value; the handler turns \<^verbatim>\<open>std::out_of_range\<close> (and
  nothing else) into \<^verbatim>\<open>NotFound\<close>.
\<close>

definition get_dense ::
  "'v \<Rightarrow> 'v VectorBasedDenseMap \<Rightarrow> 'w::len word \<Rightarrow> 'w word error + 'v" where
  "get_dense ev m ident =
     (case (case vector_at m (unat ident) of
              Inl e \<Rightarrow> Inl e
            | Inr v \<Rightarrow> if v = ev then not_found_error ident else Inr v) of
        Inl OutOfRange \<Rightarrow> not_found_error ident
      | r \<Rightarrow> r)"

definition byte_size_dense :: "nat \<Rightarrow> 'v VectorBasedDenseMap \<Rightarrow> nat" where
  "byte_size_dense sizeof_element m = length m * sizeof_element"

definition used_memory_dense :: "nat \<Rightarrow> 'v VectorBasedDenseMap \<Rightarrow> nat" where
  "used_memory_dense sizeof_value m = sizeof_value * size_dense m"

definition clear_dense :: "'v VectorBasedDenseMap \<Rightarrow> 'v VectorBasedDenseMap" where
  "clear_dense m = []"

text \<open>
  Modelled from the spec: \<^verbatim>\<open>osmium::io::detail::reliable_write(fd, buffer, size)\<close> is
  defined in osmium/io/detail/read_write.hpp, not in this header. It writes the first
  \<open>size\<close> bytes of the buffer to the sink, all of them, or fails with a write
  error. The sink is the sequence of bytes written to the descriptor so far; \<open>accepts\<close>
  is the environment's answer, whether the descriptor takes the bytes.
\<close>

type_synonym byte = "8 word"

definition reliable_write :: "bool \<Rightarrow> byte list \<Rightarrow> byte list \<Rightarrow> nat \<Rightarrow> 'id error + byte list" where
  "reliable_write accepts sink buffer n =
     (if accepts then Inr (sink @ take n buffer) else Inl WriteFailed)"

text \<open>
  \<^verbatim>\<open>m_vector.data()\<close> read through \<^verbatim>\<open>reinterpret_cast<const char*>\<close>: the elements of a
  vector lie one after the other, so the bytes are those of the elements in index
  order. The object representation of a value is the parameter \<open>bytes_of\<close>.
\<close>

definition data_bytes :: "('v \<Rightarrow> byte list) \<Rightarrow> 'v list \<Rightarrow> byte list" where
  "data_bytes bytes_of xs = concat (map bytes_of xs)"

text \<open>
  \<^verbatim>\<open>dump_as_array\<close>:
  \<^verbatim>\<open>reliable_write(fd, reinterpret_cast<const char*>(m_vector.data()), byte_size());\<close>
\<close>

definition dump_as_array ::
  "('v \<Rightarrow> byte list) \<Rightarrow> nat \<Rightarrow> bool \<Rightarrow> byte list \<Rightarrow> 'v VectorBasedDenseMap \<Rightarrow>
     'id error + byte list" where
  "dump_as_array bytes_of sizeof_element accepts sink m =
     reliable_write accepts sink (data_bytes bytes_of m) (byte_size_dense sizeof_element m)"

subsection \<open>VectorBasedSparseMap\<close>

text \<open>The vector holds \<^verbatim>\<open>element_type = std::pair<TId, TValue>\<close>.\<close>

type_synonym ('w, 'v) VectorBasedSparseMap = "('w word \<times> 'v) list"

definition size_sparse :: "('w, 'v) VectorBasedSparseMap \<Rightarrow> nat" where
  "size_sparse m = length m"

text \<open>\<^verbatim>\<open>set\<close>: \<^verbatim>\<open>m_vector.push_back(element_type(id, value));\<close>\<close>

definition set_sparse ::
  "('w, 'v) VectorBasedSparseMap \<Rightarrow> 'w word \<Rightarrow> 'v \<Rightarrow> ('w, 'v) VectorBasedSparseMap" where
  "set_sparse m ident v = m @ [(ident, v)]"

text \<open>
  \<^verbatim>\<open>std::lower_bound(first, last, val, comp)\<close> is the standard library's binary
  search; the model is its loop, on offsets from \<^verbatim>\<open>begin()\<close>: it halves the range
  \<open>[first, first + len)\<close> and keeps the right part when \<^verbatim>\<open>comp(*middle, val)\<close> holds.
  The offset \<open>length xs\<close> is \<^verbatim>\<open>end()\<close>. Every element it reads lies inside the range
  (\<open>middle < first + len\<close>), so no read is out of bounds as long as the range is.
\<close>

function lower_bound_loop ::
  "'a list \<Rightarrow> 'a \<Rightarrow> ('a \<Rightarrow> 'a \<Rightarrow> bool) \<Rightarrow> nat \<Rightarrow> nat \<Rightarrow> nat" where
  "lower_bound_loop xs val cmp first len =
     (if 0 < len then
        (let half = len div 2; middle = first + half in
         if cmp (xs ! middle) val
         then lower_bound_loop xs val cmp (middle + 1) (len - half - 1)
         else lower_bound_loop xs val cmp first half)
      else first)"
  by pat_completeness auto
termination
  by (relation "measure (\<lambda>(xs, val, cmp, first, len). len)") auto

declare lower_bound_loop.simps [simp del]

definition lower_bound :: "'a list \<Rightarrow> 'a \<Rightarrow> ('a \<Rightarrow> 'a \<Rightarrow> bool) \<Rightarrow> nat" where
  "lower_bound xs val cmp = lower_bound_loop xs val cmp 0 (length xs)"

text \<open>
  \<^verbatim>\<open>get\<close>: searches for the element \<^verbatim>\<open>{id, empty_value<TValue>()}\<close> with a comparison
  of the identifiers only; raises \<^verbatim>\<open>NotFound\<close> when the search ends at \<^verbatim>\<open>end()\<close> or
  at a pair with another identifier.
\<close>

definition get_sparse ::
  "'v \<Rightarrow> ('w::len, 'v) VectorBasedSparseMap \<Rightarrow> 'w word \<Rightarrow> 'w word error + 'v" where
  "get_sparse ev m ident =
     (let element = (ident, ev);
          result = lower_bound m element (\<lambda>a b. fst a < fst b)
      in if result = length m \<or> fst (m ! result) \<noteq> ident
         then not_found_error ident
         else Inr (snd (m ! result)))"

text \<open>
  \<^verbatim>\<open>sort\<close>: \<^verbatim>\<open>std::sort(m_vector.begin(), m_vector.end())\<close> orders the pairs by
  \<^verbatim>\<open>operator<\<close> of \<^verbatim>\<open>std::pair\<close>: by identifier first, by value among equal
  identifiers. The standard library promises a permutation in ascending order; for a
  linear order on the values there is exactly one such list, the one \<^const>\<open>sort\<close>
  computes with the lexicographic order on pairs.
\<close>

definition sort_sparse ::
  "('w::len, 'v::linorder) VectorBasedSparseMap \<Rightarrow> ('w, 'v) VectorBasedSparseMap" where
  "sort_sparse m = sort m"

definition byte_size_sparse :: "nat \<Rightarrow> ('w, 'v) VectorBasedSparseMap \<Rightarrow> nat" where
  "byte_size_sparse sizeof_element m = length m * sizeof_element"

definition used_memory_sparse :: "nat \<Rightarrow> ('w, 'v) VectorBasedSparseMap \<Rightarrow> nat" where
  "used_memory_sparse sizeof_element m = sizeof_element * size_sparse m"

definition clear_sparse :: "('w, 'v) VectorBasedSparseMap \<Rightarrow> ('w, 'v) VectorBasedSparseMap" where
  "clear_sparse m = []"

text \<open>
  A sequence of \<^verbatim>\<open>set\<close> calls, in order, on a map: the driver of the properties that
  speak of a batch of insertions.
\<close>

fun set_calls_sparse ::
  "('w, 'v) VectorBasedSparseMap \<Rightarrow> ('w word \<times> 'v) list \<Rightarrow> ('w, 'v) VectorBasedSparseMap" where
  "set_calls_sparse m [] = m"
| "set_calls_sparse m ((ident, v) # calls) = set_calls_sparse (set_sparse m ident v) calls"

section \<open>Properties of the dense map\<close>

lemma length_resize: "length (resize dv xs n) = n"
  by (simp add: resize_def)

lemma nth_resize_old: "i < length xs \<Longrightarrow> i < n \<Longrightarrow> resize dv xs n ! i = xs ! i"
  by (simp add: resize_def nth_append)

lemma nth_resize_new: "length xs \<le> i \<Longrightarrow> i < n \<Longrightarrow> resize dv xs n ! i = dv"
  by (simp add: resize_def nth_append)

lemma unat_plus_one: "(ident :: 'w::len word) \<noteq> - 1 \<Longrightarrow> unat (ident + 1) = unat ident + 1"
  by (metis Suc_eq_plus1 add.commute add_eq_0_iff2 unatSuc)

text \<open>
  \<^verbatim>\<open>id+1\<close> is the successor of the identifier, but for the largest identifier of a
  type as wide as \<^verbatim>\<open>unsigned int\<close> or wider, where it is 0.
\<close>

lemma id_plus_one_Suc:
  "(ident :: 'w::len word) \<noteq> - 1 \<or> LENGTH('w) < 32 \<Longrightarrow> id_plus_one ident = unat ident + 1"
  by (auto simp: id_plus_one_def unat_plus_one)

lemma id_plus_one_wraps: "32 \<le> LENGTH('w::len) \<Longrightarrow> id_plus_one (- 1 :: 'w word) = 0"
  by (simp add: id_plus_one_def)

text \<open>
  \<^verbatim>\<open>set\<close> returns for every identifier whose successor does not wrap, and has stored
  into the vector grown to \<open>id + 1\<close> slots.
\<close>

lemma set_dense_completes:
  "(ident :: 'w::len word) \<noteq> - 1 \<or> LENGTH('w) < 32 \<Longrightarrow>
     set_dense dv m ident v =
       Inr ((if length m \<le> unat ident then resize dv m (unat ident + 1) else m)[unat ident := v])"
  by (simp add: set_dense_def size_dense_def vector_store_def length_resize id_plus_one_Suc)

text \<open>
  At the largest identifier of a type as wide as \<^verbatim>\<open>unsigned int\<close> or wider, \<^verbatim>\<open>id+1\<close>
  is 0: a vector at most that long is cut to no elements and the store lands outside
  it.
\<close>

lemma set_dense_largest_id:
  "32 \<le> LENGTH('w::len) \<Longrightarrow> length m \<le> unat (- 1 :: 'w word) \<Longrightarrow>
     set_dense dv m (- 1 :: 'w word) v = Inl OutOfBounds"
  by (simp add: set_dense_def size_dense_def vector_store_def resize_def id_plus_one_wraps)

text \<open>
  With identifiers of 8 bits the sum is computed in \<^verbatim>\<open>int\<close>: \<^verbatim>\<open>set(255, v)\<close> on an empty
  map grows the vector to 256 slots and stores into the last one.
\<close>

lemma store_last_slot: "k = Suc n \<Longrightarrow> (replicate k dv)[n := v] = replicate n dv @ [v]"
  by (induction n arbitrary: k) simp_all

lemma set_dense_narrow_id:
  "set_dense dv [] (255 :: 8 word) v = Inr (replicate 255 dv @ [v])"
proof -
  have "(replicate 256 dv)[255 := v] = replicate 255 dv @ [v]"
    by (rule store_last_slot) simp
  then show ?thesis
    by (simp add: set_dense_def size_dense_def vector_store_def resize_def id_plus_one_def)
qed

lemma set_dense_Inr:
  assumes "set_dense dv m (ident :: 'w::len word) v = Inr m'"
  shows "unat ident < length m'" and "m' ! unat ident = v"
    and "length m' = max (length m) (unat ident + 1)"
    and "j < length m' \<Longrightarrow> j \<noteq> unat ident \<Longrightarrow>
           m' ! j = (if j < length m then m ! j else dv)"
proof -
  let ?m1 = "if length m \<le> unat ident then resize dv m (id_plus_one ident) else m"
  from assms have in_range: "unat ident < length ?m1" and m': "m' = ?m1[unat ident := v]"
    by (auto simp: set_dense_def size_dense_def vector_store_def Let_def split: if_splits)
  show "unat ident < length m'" using in_range m' by simp
  show "m' ! unat ident = v" using in_range m' by simp
  have grown: "length m \<le> unat ident \<Longrightarrow> id_plus_one ident = unat ident + 1"
  proof -
    assume le: "length m \<le> unat ident"
    have "ident \<noteq> - 1 \<or> LENGTH('w) < 32"
    proof (rule ccontr)
      assume "\<not> (ident \<noteq> - 1 \<or> LENGTH('w) < 32)"
      then have "id_plus_one ident = 0" by (simp add: id_plus_one_wraps)
      with le in_range show False by (simp add: length_resize)
    qed
    then show ?thesis by (rule id_plus_one_Suc)
  qed
  show "length m' = max (length m) (unat ident + 1)"
    using m' grown by (auto simp: length_resize)
  show "m' ! j = (if j < length m then m ! j else dv)"
    if "j < length m'" "j \<noteq> unat ident"
    using that m' grown by (auto simp: length_resize nth_resize_old nth_resize_new)
qed

text \<open>
  C1 (dense round-trip): for every identifier and every value other than the empty
  value, \<^verbatim>\<open>set(id, v)\<close> on a dense map returns and \<^verbatim>\<open>get(id)\<close> then succeeds and
  returns \<open>v\<close>, whatever the map before the call, the empty value and the fill value
  of the vector: this holds for every identifier whose successor does not wrap (every
  identifier of a type narrower than \<^verbatim>\<open>int\<close>, every one but the largest of a wider
  type). At the largest identifier of a type as wide as \<^verbatim>\<open>unsigned int\<close> or wider it
  fails: \<^verbatim>\<open>set\<close> on a map no longer than that identifier cuts the vector to no
  elements and stores outside it.
\<close>

theorem dense_round_trip:
  "(v \<noteq> ev \<longrightarrow> (ident :: 'w::len word) \<noteq> - 1 \<or> LENGTH('w) < 32 \<longrightarrow>
      (\<exists>m'. set_dense dv m ident v = Inr m' \<and> get_dense ev m' ident = Inr v)) \<and>
   (32 \<le> LENGTH('w) \<longrightarrow> size_dense m \<le> unat (- 1 :: 'w word) \<longrightarrow>
      set_dense dv m (- 1 :: 'w word) v = Inl OutOfBounds)"
proof (intro conjI impI)
  assume v: "v \<noteq> ev" and i: "ident \<noteq> - 1 \<or> LENGTH('w) < 32"
  let ?m' = "(if length m \<le> unat ident then resize dv m (unat ident + 1) else m)[unat ident := v]"
  have s: "set_dense dv m ident v = Inr ?m'"
    using i by (rule set_dense_completes)
  from set_dense_Inr(1,2) [OF s] v have "get_dense ev ?m' ident = Inr v"
    by (simp add: get_dense_def vector_at_def)
  with s show "\<exists>m'. set_dense dv m ident v = Inr m' \<and> get_dense ev m' ident = Inr v"
    by blast
next
  assume "32 \<le> LENGTH('w)" and "size_dense m \<le> unat (- 1 :: 'w word)"
  then show "set_dense dv m (- 1 :: 'w word) v = Inl OutOfBounds"
    by (simp add: size_dense_def set_dense_largest_id)
qed

theorem dense_round_trip_witness:
  "set_dense (0 :: 32 word) [] (5 :: 64 word) 42 = Inr [0, 0, 0, 0, 0, 42] \<and>
   get_dense (- 1 :: 32 word) [0, 0, 0, 0, 0, 42] (5 :: 64 word) = Inr 42 \<and>
   set_dense (0 :: 32 word) [] (- 1 :: 64 word) 42 = Inl OutOfBounds"
proof -
  have r: "(replicate 6 (0 :: 32 word))[5 := 42] = [0, 0, 0, 0, 0, 42]"
    by (simp add: numeral_eq_Suc)
  have s: "set_dense (0 :: 32 word) [] (5 :: 64 word) 42 = Inr [0, 0, 0, 0, 0, 42]"
    by (simp add: set_dense_def size_dense_def vector_store_def resize_def id_plus_one_def r)
  have n: "(42 :: 32 word) \<noteq> - 1" and i: "(5 :: 64 word) \<noteq> - 1" by simp_all
  note t = dense_round_trip [of 42 "- 1 :: 32 word" "5 :: 64 word" 0 "[]"]
  from t n i have "\<exists>m'. set_dense (0 :: 32 word) [] (5 :: 64 word) 42 = Inr m' \<and>
      get_dense (- 1 :: 32 word) m' (5 :: 64 word) = Inr 42"
    by blast
  with s have g: "get_dense (- 1 :: 32 word) [0, 0, 0, 0, 0, 42] (5 :: 64 word) = Inr 42"
    by simp
  from t have o: "set_dense (0 :: 32 word) [] (- 1 :: 64 word) 42 = Inl OutOfBounds"
    by (simp add: size_dense_def)
  from s g o show ?thesis by simp
qed

text \<open>
  C3 (dense growth with gap-fill): \<^verbatim>\<open>set(id, v)\<close> on an empty dense map returns, after
  it \<^verbatim>\<open>size()\<close> is \<open>id + 1\<close>, and for every \<open>j < id\<close> (none of them was set)
  \<^verbatim>\<open>get(j)\<close> fails with \<^verbatim>\<open>NotFound(j)\<close> where the fill value of the vector is the empty
  value; only there: where the two differ, \<^verbatim>\<open>get(j)\<close> returns the fill value. This
  holds for every identifier whose successor does not wrap. At the largest identifier
  of a type as wide as \<^verbatim>\<open>unsigned int\<close> or wider it fails: \<^verbatim>\<open>set\<close> leaves no slot and
  stores outside the vector.
\<close>

theorem dense_growth:
  "((ident :: 'w::len word) \<noteq> - 1 \<or> LENGTH('w) < 32 \<longrightarrow>
      (\<exists>m'. set_dense dv [] ident v = Inr m' \<and>
         size_dense m' = unat ident + 1 \<and>
         (dv = ev \<longrightarrow> (\<forall>j<ident. get_dense ev m' j = Inl (NotFound j))) \<and>
         (dv \<noteq> ev \<longrightarrow> (\<forall>j<ident. get_dense ev m' j = Inr dv)))) \<and>
   (32 \<le> LENGTH('w) \<longrightarrow> set_dense dv [] (- 1 :: 'w word) v = Inl OutOfBounds)"
proof (intro conjI impI)
  assume i: "ident \<noteq> - 1 \<or> LENGTH('w) < 32"
  from set_dense_completes [OF i, of dv "[]" v]
  obtain m' where s: "set_dense dv [] ident v = Inr m'"
    by blast
  have len: "length m' = unat ident + 1"
    using set_dense_Inr(3) [OF s] by simp
  have slot: "m' ! unat j = dv" "unat j < length m'" if "j < ident" for j
  proof -
    from that have lt: "unat j < unat ident" by (simp add: word_less_nat_alt)
    with len show "unat j < length m'" by simp
    with set_dense_Inr(4) [OF s, of "unat j"] lt show "m' ! unat j = dv" by simp
  qed
  have "size_dense m' = unat ident + 1 \<and>
        (dv = ev \<longrightarrow> (\<forall>j<ident. get_dense ev m' j = Inl (NotFound j))) \<and>
        (dv \<noteq> ev \<longrightarrow> (\<forall>j<ident. get_dense ev m' j = Inr dv))"
    using len slot
    by (simp add: size_dense_def get_dense_def vector_at_def not_found_error_def)
  with s show "\<exists>m'. set_dense dv [] ident v = Inr m' \<and>
         size_dense m' = unat ident + 1 \<and>
         (dv = ev \<longrightarrow> (\<forall>j<ident. get_dense ev m' j = Inl (NotFound j))) \<and>
         (dv \<noteq> ev \<longrightarrow> (\<forall>j<ident. get_dense ev m' j = Inr dv))"
    by blast
next
  assume "32 \<le> LENGTH('w)"
  then show "set_dense dv [] (- 1 :: 'w word) v = Inl OutOfBounds"
    by (simp add: set_dense_largest_id)
qed

theorem dense_growth_witness:
  "set_dense (0 :: 32 word) [] (2 :: 64 word) 7 = Inr [0, 0, 7] \<and>
   size_dense [0, 0, 7 :: 32 word] = 3 \<and>
   get_dense (0 :: 32 word) [0, 0, 7] (1 :: 64 word) = Inl (NotFound 1) \<and>
   get_dense (- 1 :: 32 word) [0, 0, 7] (1 :: 64 word) = Inr 0 \<and>
   set_dense (0 :: 32 word) [] (- 1 :: 64 word) 7 = Inl OutOfBounds"
proof -
  have r: "(replicate 3 (0 :: 32 word))[2 := 7] = [0, 0, 7]"
    by (simp add: numeral_eq_Suc)
  have s: "set_dense (0 :: 32 word) [] (2 :: 64 word) 7 = Inr [0, 0, 7]"
    by (simp add: set_dense_def size_dense_def vector_store_def resize_def id_plus_one_def r)
  have i: "(2 :: 64 word) \<noteq> - 1" by simp
  have lt: "(1 :: 64 word) < 2" by simp
  note t0 = dense_growth [of "2 :: 64 word" "0 :: 32 word" 7 0]
  note t1 = dense_growth [of "2 :: 64 word" "0 :: 32 word" 7 "- 1"]
  from t0 i s have a: "size_dense [0, 0, 7 :: 32 word] = 3"
    and "\<forall>j<2 :: 64 word. get_dense (0 :: 32 word) [0, 0, 7] j = Inl (NotFound j)"
    by simp_all
  with lt have b: "get_dense (0 :: 32 word) [0, 0, 7] (1 :: 64 word) = Inl (NotFound 1)"
    by blast
  from t1 i s have "\<forall>j<2 :: 64 word. get_dense (- 1 :: 32 word) [0, 0, 7] j = Inr 0"
    by simp
  with lt have c: "get_dense (- 1 :: 32 word) [0, 0, 7] (1 :: 64 word) = Inr 0"
    by blast
  from t0 have o: "set_dense (0 :: 32 word) [] (- 1 :: 64 word) 7 = Inl OutOfBounds"
    by simp
  from s a b c o show ?thesis by simp
qed

text \<open>
  C4 (failure of \<^verbatim>\<open>get\<close> on the dense map): \<^verbatim>\<open>get(id)\<close> fails with
  \<^verbatim>\<open>NotFound(id)\<close> exactly when \<open>id \<ge> size()\<close> or the slot at offset \<open>id\<close> holds the
  empty value; in every other case it returns the stored value; and it raises no other
  error.
\<close>

theorem dense_get_failure:
  "(get_dense ev m ident = Inl (NotFound ident)) =
     (size_dense m \<le> unat ident \<or> m ! unat ident = ev) \<and>
   (\<not> (size_dense m \<le> unat ident \<or> m ! unat ident = ev) \<longrightarrow>
      get_dense ev m ident = Inr (m ! unat ident)) \<and>
   (\<forall>e. get_dense ev m ident = Inl e \<longrightarrow> e = NotFound ident)"
  by (auto simp: get_dense_def vector_at_def not_found_error_def size_dense_def)

theorem dense_get_failure_witness:
  "get_dense (- 1 :: 32 word) [7, - 1, 9] (0 :: 64 word) = Inr 7 \<and>
   get_dense (- 1 :: 32 word) [7, - 1, 9] (1 :: 64 word) = Inl (NotFound 1) \<and>
   get_dense (- 1 :: 32 word) [7, - 1, 9] (3 :: 64 word) = Inl (NotFound 3)"
proof -
  have a: "get_dense (- 1 :: 32 word) [7, - 1, 9] (0 :: 64 word) = Inr 7"
    using dense_get_failure [of "- 1 :: 32 word" "[7, - 1, 9]" "0 :: 64 word",
        THEN conjunct2, THEN conjunct1]
    by (simp add: size_dense_def)
  have b: "get_dense (- 1 :: 32 word) [7, - 1, 9] (1 :: 64 word) = Inl (NotFound 1)"
    using dense_get_failure [of "- 1 :: 32 word" "[7, - 1, 9]" "1 :: 64 word", THEN conjunct1]
    by (simp add: size_dense_def)
  have c: "get_dense (- 1 :: 32 word) [7, - 1, 9] (3 :: 64 word) = Inl (NotFound 3)"
    using dense_get_failure [of "- 1 :: 32 word" "[7, - 1, 9]" "3 :: 64 word", THEN conjunct1]
    by (simp add: size_dense_def)
  from a b c show ?thesis by simp
qed

text \<open>The byte image of the vector has \<open>size() * sizeof(element_type)\<close> bytes.\<close>

lemma length_data_bytes:
  "\<forall>v \<in> set xs. length (bytes_of v) = n \<Longrightarrow> length (data_bytes bytes_of xs) = length xs * n"
  by (induction xs) (simp_all add: data_bytes_def)

text \<open>
  C8 (byte count of a dump): where every stored value has an object representation of
  \<^verbatim>\<open>sizeof(element_type)\<close> bytes, \<^verbatim>\<open>dump_as_array\<close> either appends to the sink the
  bytes of all \<open>size()\<close> elements in index order, \<open>size() * sizeof(element_type)\<close> of
  them, or fails with a write error; it reports no other outcome.
\<close>

theorem dump_byte_count:
  assumes "\<forall>v \<in> set m. length (bytes_of v) = sizeof_element"
  shows "(accepts \<longrightarrow>
            dump_as_array bytes_of sizeof_element accepts sink m =
              Inr (sink @ data_bytes bytes_of m)) \<and>
         (\<not> accepts \<longrightarrow>
            dump_as_array bytes_of sizeof_element accepts sink m = Inl WriteFailed) \<and>
         length (data_bytes bytes_of m) = size_dense m * sizeof_element"
  using length_data_bytes [OF assms]
  by (simp add: dump_as_array_def reliable_write_def byte_size_dense_def size_dense_def)

theorem dump_byte_count_witness:
  "dump_as_array
     (\<lambda>v. [ucast v, ucast (drop_bit 8 v), ucast (drop_bit 16 v), ucast (drop_bit 24 v)])
     4 True [] [1, 258 :: 32 word] = Inr [1, 0, 0, 0, 2, 1, 0, 0] \<and>
   dump_as_array
     (\<lambda>v. [ucast v, ucast (drop_bit 8 v), ucast (drop_bit 16 v), ucast (drop_bit 24 v)])
     4 False [] [1, 258 :: 32 word] = Inl WriteFailed \<and>
   length [1, 0, 0, 0, 2, 1, 0, 0 :: byte] = size_dense [1, 258 :: 32 word] * 4"
proof -
  let ?bytes_of = "\<lambda>v :: 32 word.
     [ucast v, ucast (drop_bit 8 v), ucast (drop_bit 16 v), ucast (drop_bit 24 v) :: byte]"
  have h: "\<forall>v \<in> set [1, 258 :: 32 word]. length (?bytes_of v) = 4" by simp
  have d: "data_bytes ?bytes_of [1, 258] = [1, 0, 0, 0, 2, 1, 0, 0]"
    by (simp add: data_bytes_def drop_bit_eq_div)
  from dump_byte_count [OF h, of True "[]"] dump_byte_count [OF h, of False "[]"] d
  show ?thesis by (simp add: size_dense_def)
qed

section \<open>Properties of the sparse map\<close>

text \<open>The three ways through one round of the loop.\<close>

lemma lower_bound_loop_done: "lower_bound_loop xs val cmp first 0 = first"
  by (subst lower_bound_loop.simps) simp

lemma lower_bound_loop_right:
  "0 < len \<Longrightarrow> cmp (xs ! (first + len div 2)) val \<Longrightarrow>
     lower_bound_loop xs val cmp first len =
       lower_bound_loop xs val cmp (first + len div 2 + 1) (len - len div 2 - 1)"
  by (subst lower_bound_loop.simps) (simp add: Let_def)

lemma lower_bound_loop_left:
  "0 < len \<Longrightarrow> \<not> cmp (xs ! (first + len div 2)) val \<Longrightarrow>
     lower_bound_loop xs val cmp first len = lower_bound_loop xs val cmp first (len div 2)"
  by (subst lower_bound_loop.simps) (simp add: Let_def)

text \<open>The result lies in the range searched, whatever the order of the vector.\<close>

lemma lower_bound_loop_range:
  "first \<le> lower_bound_loop xs val cmp first len \<and>
   lower_bound_loop xs val cmp first len \<le> first + len"
proof (induction xs val cmp first len rule: lower_bound_loop.induct)
  case (1 xs val cmp first len)
  show ?case
  proof (cases "0 < len")
    case False
    then show ?thesis by (simp add: lower_bound_loop_done)
  next
    case True
    let ?half = "len div 2"
    let ?middle = "first + ?half"
    show ?thesis
    proof (cases "cmp (xs ! ?middle) val")
      case right: True
      from "1.IH"(1) [OF True refl refl right]
      show ?thesis
        using True right by (simp add: lower_bound_loop_right)
    next
      case left: False
      have "len div 2 \<le> len" by simp
      with "1.IH"(2) [OF True refl refl left]
      show ?thesis
        using True left by (auto simp: lower_bound_loop_left)
    qed
  qed
qed

text \<open>
  On a vector ordered by identifier, the search keeps the invariant of a binary search:
  every pair left of the range has a smaller identifier than the one looked for, no
  pair right of it has.
\<close>

lemma lower_bound_loop_partition:
  assumes "sorted (map fst xs)" and "first + len \<le> length xs"
    and "\<forall>i<first. fst (xs ! i) < k"
    and "\<forall>i. first + len \<le> i \<and> i < length xs \<longrightarrow> k \<le> fst (xs ! i)"
    and "val = (k, e)" and "cmp = (\<lambda>a b. fst a < fst b)"
  shows "(\<forall>i<lower_bound_loop xs val cmp first len. fst (xs ! i) < k) \<and>
         (\<forall>i. lower_bound_loop xs val cmp first len \<le> i \<and> i < length xs \<longrightarrow> k \<le> fst (xs ! i))"
  using assms
proof (induction xs val cmp first len rule: lower_bound_loop.induct)
  case (1 xs val cmp first len)
  show ?case
  proof (cases "0 < len")
    case False
    then show ?thesis using "1.prems" by (simp add: lower_bound_loop_done)
  next
    case True
    let ?half = "len div 2"
    let ?middle = "first + ?half"
    have mid: "?middle < length xs" using True "1.prems"(2) by simp
    have key: "\<And>i j. i \<le> j \<Longrightarrow> j < length xs \<Longrightarrow> fst (xs ! i) \<le> fst (xs ! j)"
      using "1.prems"(1) by (simp add: sorted_iff_nth_mono)
    show ?thesis
    proof (cases "cmp (xs ! ?middle) val")
      case right: True
      then have lt: "fst (xs ! ?middle) < k" using "1.prems"(5,6) by simp
      have below: "\<forall>i<?middle + 1. fst (xs ! i) < k"
      proof (intro allI impI)
        fix i assume "i < ?middle + 1"
        then have "i \<le> ?middle" by simp
        from key [OF this mid] lt show "fst (xs ! i) < k" by simp
      qed
      have above: "\<forall>i. ?middle + 1 + (len - ?half - 1) \<le> i \<and> i < length xs \<longrightarrow> k \<le> fst (xs ! i)"
        using "1.prems"(4) True by simp
      have fits: "?middle + 1 + (len - ?half - 1) \<le> length xs"
        using True "1.prems"(2) by simp
      from "1.IH"(1) [OF True refl refl right "1.prems"(1) fits below above "1.prems"(5,6)]
      show ?thesis
        using True right by (simp add: lower_bound_loop_right)
    next
      case left: False
      then have ge: "k \<le> fst (xs ! ?middle)" using "1.prems"(5,6) by simp
      have above: "\<forall>i. first + ?half \<le> i \<and> i < length xs \<longrightarrow> k \<le> fst (xs ! i)"
      proof (intro allI impI)
        fix i assume "first + ?half \<le> i \<and> i < length xs"
        then have "fst (xs ! ?middle) \<le> fst (xs ! i)" using key by simp
        with ge show "k \<le> fst (xs ! i)" by simp
      qed
      have fits: "first + ?half \<le> length xs" using "1.prems"(2) by simp
      from "1.IH"(2) [OF True refl refl left "1.prems"(1) fits "1.prems"(3) above "1.prems"(5,6)]
      show ?thesis
        using True left by (simp add: lower_bound_loop_left)
    qed
  qed
qed

text \<open>A batch of \<^verbatim>\<open>set\<close> calls appends its pairs in call order.\<close>

lemma set_calls_sparse_append: "set_calls_sparse m calls = m @ calls"
  by (induction m calls rule: set_calls_sparse.induct) (simp_all add: set_sparse_def)

text \<open>
  Whatever algorithm \<^verbatim>\<open>std::sort\<close> runs, a permutation of the vector in ascending
  order is the list of the model.
\<close>

lemma sort_sparse_unique:
  "mset ys = mset m \<Longrightarrow> sorted ys \<Longrightarrow> sort_sparse m = ys"
  unfolding sort_sparse_def by (rule properties_for_sort)

text \<open>The lexicographic order of the pairs orders the identifiers.\<close>

lemma sorted_fst_sort_sparse: "sorted (map fst (sort_sparse m))"
proof -
  have "sorted (sort m)" by simp
  then have "\<forall>i j. i \<le> j \<longrightarrow> j < length (sort m) \<longrightarrow> sort m ! i \<le> sort m ! j"
    by (simp add: sorted_iff_nth_mono)
  then have "\<forall>i j. i \<le> j \<longrightarrow> j < length (sort m) \<longrightarrow> fst (sort m ! i) \<le> fst (sort m ! j)"
    by (auto simp: less_eq_prod_def less_le)
  then show ?thesis
    by (simp add: sort_sparse_def sorted_iff_nth_mono)
qed

text \<open>
  An identifier that no pair carries is not found, sorted vector or not: the search
  ends at \<^verbatim>\<open>end()\<close> or at a pair with another identifier.
\<close>

lemma get_sparse_absent:
  assumes "ident \<notin> fst ` set m"
  shows "get_sparse ev m ident = Inl (NotFound ident)"
proof -
  let ?r = "lower_bound m (ident, ev) (\<lambda>a b. fst a < fst b)"
  have "?r \<le> length m"
    using lower_bound_loop_range [of 0 m "(ident, ev)" "\<lambda>a b. fst a < fst b" "length m"]
    by (simp add: lower_bound_def)
  moreover have "fst (m ! ?r) \<noteq> ident" if "?r < length m"
  proof -
    from that have "m ! ?r \<in> set m" by simp
    with assms show ?thesis by force
  qed
  ultimately show ?thesis
    by (auto simp: get_sparse_def Let_def not_found_error_def)
qed

text \<open>
  On a vector ordered by identifier, with no identifier twice, the search finds the
  pair of every identifier stored.
\<close>

lemma get_sparse_present:
  assumes srt: "sorted (map fst m)" and dist: "distinct (map fst m)"
    and mem: "(ident, v) \<in> set m"
  shows "get_sparse ev m ident = Inr v"
proof -
  let ?r = "lower_bound m (ident, ev) (\<lambda>a b. fst a < fst b)"
  from mem obtain j where j: "j < length m" "m ! j = (ident, v)"
    by (auto simp: in_set_conv_nth)
  have part: "(\<forall>i<?r. fst (m ! i) < ident) \<and>
              (\<forall>i. ?r \<le> i \<and> i < length m \<longrightarrow> ident \<le> fst (m ! i))"
    unfolding lower_bound_def
    by (rule lower_bound_loop_partition [OF srt, where e = ev]) auto
  have "\<not> j < ?r"
  proof
    assume "j < ?r"
    with part have "fst (m ! j) < ident" by blast
    with j show False by simp
  qed
  then have rj: "?r \<le> j" by simp
  with j have r_in: "?r < length m" by simp
  from part r_in have "ident \<le> fst (m ! ?r)" by blast
  moreover have "fst (m ! ?r) \<le> fst (m ! j)"
    using srt rj j(1) by (simp add: sorted_iff_nth_mono)
  ultimately have key: "fst (m ! ?r) = ident" using j(2) by simp
  then have "map fst m ! ?r = map fst m ! j" using r_in j by simp
  moreover have "?r < length (map fst m)" "j < length (map fst m)" using r_in j(1) by simp_all
  ultimately have "?r = j" using nth_eq_iff_index_eq [OF dist] by blast
  with key r_in j show ?thesis
    by (simp add: get_sparse_def Let_def)
qed

text \<open>Sorting keeps the identifiers pairwise distinct.\<close>

lemma distinct_fst_sort_sparse: "distinct (map fst m) \<Longrightarrow> distinct (map fst (sort_sparse m))"
proof -
  assume d: "distinct (map fst m)"
  have "mset (map fst (sort_sparse m)) = mset (map fst m)"
    by (simp add: sort_sparse_def)
  from mset_eq_imp_distinct_iff [OF this] d show ?thesis by blast
qed

text \<open>
  C2 (sparse round-trip after sort): for every sequence of \<^verbatim>\<open>set(id_i, v_i)\<close> calls on
  an empty sparse map with pairwise distinct identifiers, after \<^verbatim>\<open>sort()\<close> every
  \<^verbatim>\<open>get(id_i)\<close> succeeds and returns \<open>v_i\<close>.
\<close>

theorem sparse_round_trip_after_sort:
  assumes "distinct (map fst calls)" and "i < length calls"
  shows "get_sparse ev (sort_sparse (set_calls_sparse [] calls)) (fst (calls ! i)) =
           Inr (snd (calls ! i))"
proof -
  let ?m = "sort_sparse (set_calls_sparse [] calls)"
  have m: "set_calls_sparse [] calls = calls" by (simp add: set_calls_sparse_append)
  have "sorted (map fst ?m)" by (rule sorted_fst_sort_sparse)
  moreover have "distinct (map fst ?m)"
    using assms(1) by (simp add: m distinct_fst_sort_sparse)
  moreover have "(fst (calls ! i), snd (calls ! i)) \<in> set ?m"
    using assms(2) by (simp add: m sort_sparse_def)
  ultimately show ?thesis by (rule get_sparse_present)
qed

text \<open>A batch of three insertions, sorted.\<close>

lemma sort_sparse_example:
  "sort_sparse [(9 :: 64 word, 3 :: 32 word), (1, 7), (4, 4)] = [(1, 7), (4, 4), (9, 3)]"
  unfolding sort_sparse_def by code_simp

theorem sparse_round_trip_after_sort_witness:
  "distinct (map fst [(9 :: 64 word, 3 :: 32 word), (1, 7), (4, 4)]) \<and>
   get_sparse (- 1) (sort_sparse (set_calls_sparse [] [(9 :: 64 word, 3 :: 32 word), (1, 7), (4, 4)])) 9 = Inr 3"
proof -
  have d: "distinct (map fst [(9 :: 64 word, 3 :: 32 word), (1, 7), (4, 4)])" by simp
  have l: "0 < length [(9 :: 64 word, 3 :: 32 word), (1, 7), (4, 4)]" by simp
  from sparse_round_trip_after_sort [OF d l, of "- 1"] d show ?thesis by simp
qed

text \<open>
  C6 (sparse absence): for every sequence of \<^verbatim>\<open>set\<close> calls on an empty sparse map
  followed by \<^verbatim>\<open>sort()\<close>, \<^verbatim>\<open>get(id)\<close> fails with \<^verbatim>\<open>NotFound(id)\<close> for every
  identifier that no call passed.
\<close>

theorem sparse_absence:
  assumes "ident \<notin> fst ` set calls"
  shows "get_sparse ev (sort_sparse (set_calls_sparse [] calls)) ident = Inl (NotFound ident)"
  using assms by (intro get_sparse_absent) (simp add: sort_sparse_def set_calls_sparse_append)

theorem sparse_absence_witness:
  "(5 :: 64 word) \<notin> fst ` set [(9, 3 :: 32 word), (1, 7), (4, 4)] \<and>
   get_sparse (- 1) (sort_sparse (set_calls_sparse [] [(9 :: 64 word, 3 :: 32 word), (1, 7), (4, 4)])) 5 =
     Inl (NotFound 5)"
proof -
  have a: "(5 :: 64 word) \<notin> fst ` set [(9, 3 :: 32 word), (1, 7), (4, 4)]" by simp
  from sparse_absence [OF a, of "- 1"] a show ?thesis by simp
qed

text \<open>
  C5 (sort orders by identifier and is idempotent): after \<^verbatim>\<open>sort()\<close> the pairs are in
  ascending order of their identifiers, and a second \<^verbatim>\<open>sort()\<close> leaves the vector as
  it is.
\<close>

theorem sparse_sort_ordered_idempotent:
  "sorted (map fst (sort_sparse m)) \<and> sort_sparse (sort_sparse m) = sort_sparse m"
proof
  show "sorted (map fst (sort_sparse m))"
    by (rule sorted_fst_sort_sparse)
  show "sort_sparse (sort_sparse m) = sort_sparse m"
    by (simp add: sort_sparse_def sorted_sort_id)
qed

theorem sparse_sort_ordered_idempotent_witness:
  "sort_sparse [(9 :: 64 word, 3 :: 32 word), (1, 7), (4, 4)] = [(1, 7), (4, 4), (9, 3)] \<and>
   sorted (map fst [(1 :: 64 word, 7 :: 32 word), (4, 4), (9, 3)]) \<and>
   sort_sparse [(1 :: 64 word, 7 :: 32 word), (4, 4), (9, 3)] = [(1, 7), (4, 4), (9, 3)]"
  using sparse_sort_ordered_idempotent [of "[(9 :: 64 word, 3 :: 32 word), (1, 7), (4, 4)]"]
  by (simp only: sort_sparse_example)

text \<open>
  C7 (\<^verbatim>\<open>set\<close> on the sparse map is an unconditional append): \<^verbatim>\<open>set(id, value)\<close> puts
  the pair \<open>(id, value)\<close> at the end of the vector, leaves the pairs stored before
  where they were, and makes \<^verbatim>\<open>size()\<close> one larger, whether or not the identifier is
  stored already.
\<close>

theorem sparse_set_appends:
  "set_sparse m ident v = m @ [(ident, v)] \<and>
   take (size_sparse m) (set_sparse m ident v) = m \<and>
   set_sparse m ident v ! size_sparse m = (ident, v) \<and>
   size_sparse (set_sparse m ident v) = size_sparse m + 1"
  by (simp add: set_sparse_def size_sparse_def)

theorem sparse_set_appends_witness:
  "set_sparse [(4 :: 64 word, 1 :: 32 word), (2, 8)] 4 5 = [(4, 1), (2, 8), (4, 5)] \<and>
   size_sparse (set_sparse [(4 :: 64 word, 1 :: 32 word), (2, 8)] 4 5) = 3"
  using sparse_set_appends [of "[(4 :: 64 word, 1 :: 32 word), (2, 8)]" 4 5]
  by (simp add: size_sparse_def)

text \<open>
  C10 (sort keeps the contents): \<^verbatim>\<open>sort()\<close> permutes the stored pairs; the multiset of
  pairs and \<^verbatim>\<open>size()\<close> are the same before and after.
\<close>

theorem sparse_sort_permutation:
  "mset (sort_sparse m) = mset m \<and> size_sparse (sort_sparse m) = size_sparse m"
  by (simp add: sort_sparse_def size_sparse_def)

theorem sparse_sort_permutation_witness:
  "mset (sort_sparse [(9 :: 64 word, 3 :: 32 word), (1, 7), (9, 3)]) =
     mset [(9 :: 64 word, 3 :: 32 word), (1, 7), (9, 3)] \<and>
   size_sparse (sort_sparse [(9 :: 64 word, 3 :: 32 word), (1, 7), (9, 3)]) = 3"
  using sparse_sort_permutation [of "[(9 :: 64 word, 3 :: 32 word), (1, 7), (9, 3)]"]
  by (simp add: size_sparse_def)

text \<open>The search in a vector of one pair.\<close>

lemma get_sparse_single: "get_sparse ev [(ident, v)] ident = Inr v"
  by (simp add: get_sparse_def lower_bound_def lower_bound_loop_left lower_bound_loop_done)

text \<open>
  C9 (the dense map never returns the empty value): a successful \<^verbatim>\<open>get\<close> on a dense
  map returns a value other than the empty value. The sparse map gives no such
  guarantee: after \<^verbatim>\<open>set(id, empty_value)\<close> and \<^verbatim>\<open>sort()\<close> on an empty sparse map,
  \<^verbatim>\<open>get(id)\<close> returns the empty value.
\<close>

theorem dense_never_returns_empty_value:
  "(get_dense ev m ident = Inr v \<longrightarrow> v \<noteq> ev) \<and>
   get_sparse ev' (sort_sparse (set_sparse [] ident' ev')) ident' = Inr ev'"
proof
  show "get_dense ev m ident = Inr v \<longrightarrow> v \<noteq> ev"
    by (auto simp: get_dense_def vector_at_def not_found_error_def split: if_splits)
  show "get_sparse ev' (sort_sparse (set_sparse [] ident' ev')) ident' = Inr ev'"
    by (simp add: sort_sparse_def set_sparse_def get_sparse_single)
qed

theorem dense_never_returns_empty_value_witness:
  "get_dense (- 1 :: 32 word) [7, - 1, 9] (0 :: 64 word) = Inr 7 \<and> (7 :: 32 word) \<noteq> - 1 \<and>
   get_sparse (- 1 :: 32 word) (sort_sparse (set_sparse [] (5 :: 64 word) (- 1))) 5 = Inr (- 1)"
proof -
  have g: "get_dense (- 1 :: 32 word) [7, - 1, 9] (0 :: 64 word) = Inr 7"
    by (simp add: get_dense_def vector_at_def)
  from dense_never_returns_empty_value [of "- 1 :: 32 word" "[7, - 1, 9]" "0 :: 64 word" 7
      "- 1 :: 32 word" "5 :: 64 word"] g
  show ?thesis by simp
qed

end
